theory Spec2Isabelle
  imports
    Complex_Main
    "HOL-Library.Char_ord"
    "HOL-Library.List_Lexorder"
    "HOL-Library.Product_Lexorder"
begin

section \<open>Bioaerosol automation service: the ingestion loop of Automate.py\<close>

text \<open>
  The development embeds \<^verbatim>\<open>Automate.py\<close>: loading the history, the long-to-wide
  transform of one batch, the merge into the master table, the size limit, the atomic
  save and one iteration of the loop of \<^verbatim>\<open>main\<close>.

  Modelling decisions.
  \<^item> The Date and Time cells are strings, compared as Python compares \<^verbatim>\<open>str\<close>
    (lexicographically, character by character); a pair of them is compared
    lexicographically, as \<^verbatim>\<open>sort_values(by=['Date', 'Time'])\<close> does.
  \<^item> Concentrations are exact rationals. pandas computes in IEEE doubles; rounding is
    not modelled. A cell that pandas holds as NaN (a column the frame does not have for
    that row) is \<open>None\<close>.
  \<^item> A data frame is its list of column names and its list of rows. Only the cells of
    the seven canonical columns are modelled.
  \<^item> What the operating system and the R script do is an input of the iteration (the
    record \<open>world\<close>): the exit of the R script, the file it leaves, whether the save and
    the removal succeed.
\<close>

subsection \<open>Data\<close>

datatype exn =
  CalledProcessError | FileNotFoundError | ParserError | ValueError | InvalidIndexError | OSError

text \<open>One row of the R script's output (long format).\<close>

record long_row =
  date :: string
  time :: string
  classification :: string
  conc :: rat

text \<open>One row of the history (wide format).\<close>

record wide_row =
  Date :: string
  Time :: string
  Bacteria :: "rat option"
  Fungi :: "rat option"
  Pollen :: "rat option"
  PM2_5 :: "rat option"
  PM10 :: "rat option"

record frame =
  columns :: "string list"
  rows :: "wide_row list"

text \<open>The history file on disk: absent, not parseable, or a table.\<close>

datatype csv_file = Absent | Unreadable | Csv "string list" "wide_row list"

text \<open>
  The file the R script is expected to write. In \<open>BatchCsv cols rs\<close> the list \<open>cols\<close> is the
  header; a field of a row whose column is not in the header is never read.
\<close>

datatype batch_file = NoFile | BadFile | BatchCsv "string list" "long_row list"

subsection \<open>Constants.py\<close>

definition WAIT_TIME :: nat where
  "WAIT_TIME = 60"

subsection \<open>load_existing_history\<close>

definition final_cols :: "string list" where
  "final_cols = [''Date'', ''Time'', ''Bacteria'', ''Fungi'', ''Pollen'', ''PM2.5'', ''PM10'']"

definition empty_history :: frame where
  "empty_history = \<lparr>columns = final_cols, rows = []\<rparr>"

fun read_csv :: "csv_file \<Rightarrow> exn + frame" where
  "read_csv Absent = Inl FileNotFoundError"
| "read_csv Unreadable = Inl ParserError"
| "read_csv (Csv cs rs) = Inr \<lparr>columns = cs, rows = rs\<rparr>"

fun file_exists :: "csv_file \<Rightarrow> bool" where
  "file_exists Absent = False"
| "file_exists Unreadable = True"
| "file_exists (Csv cs rs) = True"

text \<open>
  The result is a sum so that a raise would be a value \<open>Inl\<close>: the \<^verbatim>\<open>except\<close> of the
  source catches what \<^verbatim>\<open>read_csv\<close> raises and falls through to the final return.
\<close>

definition load_existing_history :: "csv_file \<Rightarrow> exn + frame" where
  "load_existing_history automation_file =
     (if file_exists automation_file then
        (case read_csv automation_file of
           Inl e \<Rightarrow> Inr empty_history
         | Inr df \<Rightarrow>
             if ''Date'' \<in> set (columns df) \<and> ''Time'' \<in> set (columns df) then Inr df
             else Inr empty_history)
      else Inr empty_history)"

subsection \<open>The long-to-wide transform (lines 92 to 117)\<close>

text \<open>
  \<^verbatim>\<open>pivot_table(index=['date', 'time'], columns='classification', values='conc',
  fill_value=0)\<close>: one row per (date, time) of the batch, in ascending order; one column
  per classification label, in ascending order; a cell is the mean (the default
  \<^verbatim>\<open>aggfunc\<close>) of the concentrations of the batch rows with that key and label, and
  the fill value 0 when there is none.
\<close>

record pivoted =
  pcolumns :: "string list"
  prows :: "((string \<times> string) \<times> (string \<times> rat) list) list"

definition long_key :: "long_row \<Rightarrow> string \<times> string" where
  "long_key r = (date r, time r)"

definition mean :: "rat list \<Rightarrow> rat" where
  "mean vs = sum_list vs / of_nat (length vs)"

definition group_values :: "long_row list \<Rightarrow> string \<times> string \<Rightarrow> string \<Rightarrow> rat list" where
  "group_values new_data k c =
     map conc (filter (\<lambda>r. long_key r = k \<and> classification r = c) new_data)"

definition pivot_cell :: "long_row list \<Rightarrow> string \<times> string \<Rightarrow> string \<Rightarrow> rat" where
  "pivot_cell new_data k c =
     (if group_values new_data k c = [] then 0 else mean (group_values new_data k c))"

definition pivot_table :: "long_row list \<Rightarrow> pivoted" where
  "pivot_table new_data =
     (let labels = sort (remdups (map classification new_data)) in
      \<lparr>pcolumns = labels,
       prows = map (\<lambda>k. (k, map (\<lambda>c. (c, pivot_cell new_data k c)) labels))
                 (sort (remdups (map long_key new_data)))\<rparr>)"

text \<open>
  \<^verbatim>\<open>reset_index()\<close> turns the index levels date and time into the first two
  columns, and raises when a column of that name is there already.
\<close>

definition reset_index :: "pivoted \<Rightarrow> exn + pivoted" where
  "reset_index p =
     (if ''date'' \<in> set (pcolumns p) \<or> ''time'' \<in> set (pcolumns p) then Inl ValueError
      else Inr (p\<lparr>pcolumns := [''date'', ''time''] @ pcolumns p\<rparr>))"

definition rename_columns :: "pivoted \<Rightarrow> pivoted" where
  "rename_columns p =
     p\<lparr>pcolumns :=
         map (\<lambda>c. if c = ''date'' then ''Date'' else if c = ''time'' then ''Time'' else c)
           (pcolumns p)\<rparr>"

text \<open>\<^verbatim>\<open>if col not in pivoted_df.columns: pivoted_df[col] = 0.0\<close>\<close>

definition ensure_column :: "string \<Rightarrow> pivoted \<Rightarrow> pivoted" where
  "ensure_column col p =
     (if col \<in> set (pcolumns p) then p
      else \<lparr>pcolumns = pcolumns p @ [col],
            prows = map (\<lambda>(k, cells). (k, cells @ [(col, 0)])) (prows p)\<rparr>)"

definition project_row :: "(string \<times> string) \<times> (string \<times> rat) list \<Rightarrow> wide_row" where
  "project_row kr =
     \<lparr>Date = fst (fst kr), Time = snd (fst kr),
      Bacteria = map_of (snd kr) ''Bacteria'',
      Fungi = map_of (snd kr) ''Fungi'',
      Pollen = map_of (snd kr) ''Pollen'',
      PM2_5 = map_of (snd kr) ''PM2.5'',
      PM10 = map_of (snd kr) ''PM10''\<rparr>"

text \<open>
  \<^verbatim>\<open>pivoted_df[available_cols]\<close>. A classification label \<^verbatim>\<open>Date\<close> or
  \<^verbatim>\<open>Time\<close> leaves two columns of one name after the renaming; pandas has no table of
  the canonical shape for them (the selection returns both, and the frames no longer
  align), which is modelled as an exception raised here.
\<close>

definition select_columns :: "pivoted \<Rightarrow> exn + frame" where
  "select_columns p =
     (if \<not> distinct (pcolumns p) then Inl InvalidIndexError
      else Inr \<lparr>columns = filter (\<lambda>c. c \<in> set (pcolumns p)) final_cols,
                rows = map project_row (prows p)\<rparr>)"

definition transform :: "long_row list \<Rightarrow> exn + frame" where
  "transform new_data =
     (case reset_index (pivot_table new_data) of
        Inl e \<Rightarrow> Inl e
      | Inr p \<Rightarrow>
          select_columns
            (ensure_column ''PM10'' (ensure_column ''PM2.5''
              (fold ensure_column [''Bacteria'', ''Fungi'', ''Pollen''] (rename_columns p)))))"

subsection \<open>Merge and size limit (lines 122 to 130)\<close>

definition row_key :: "wide_row \<Rightarrow> string \<times> string" where
  "row_key r = (Date r, Time r)"

text \<open>\<^verbatim>\<open>pd.concat([master_df, processed_batch], ignore_index=True)\<close>\<close>

definition concat_frames :: "frame \<Rightarrow> frame \<Rightarrow> frame" where
  "concat_frames a b =
     \<lparr>columns = columns a @ filter (\<lambda>c. c \<notin> set (columns a)) (columns b),
      rows = rows a @ rows b\<rparr>"

text \<open>\<^verbatim>\<open>drop_duplicates(subset=['Date', 'Time'], keep='last')\<close> on the rows.\<close>

fun drop_duplicates :: "wide_row list \<Rightarrow> wide_row list" where
  "drop_duplicates [] = []"
| "drop_duplicates (r # rs) =
     (if row_key r \<in> set (map row_key rs) then drop_duplicates rs
      else r # drop_duplicates rs)"

text \<open>\<^verbatim>\<open>sort_values(by=['Date', 'Time'])\<close> on the rows (a stable sort).\<close>

definition sort_values :: "wide_row list \<Rightarrow> wide_row list" where
  "sort_values rs = sort_key row_key rs"

definition merge_history :: "frame \<Rightarrow> frame \<Rightarrow> frame" where
  "merge_history master_df processed_batch =
     (let combined_df = concat_frames master_df processed_batch in
      \<lparr>columns = columns combined_df,
       rows = sort_values (drop_duplicates (rows combined_df))\<rparr>)"

text \<open>\<^verbatim>\<open>if len(master_df) > 5000: master_df = master_df.iloc[-5000:]\<close>\<close>

definition cap_history :: "frame \<Rightarrow> frame" where
  "cap_history df =
     (if length (rows df) > 5000
      then df\<lparr>rows := drop (length (rows df) - 5000) (rows df)\<rparr>
      else df)"

subsection \<open>One iteration of the loop of main\<close>

datatype event = RunRscript | SaveHistory | RemoveCsv | Sleep nat

record state =
  master_df :: frame
  automation_file :: csv_file
  temp_file :: csv_file
  expected_csv :: batch_file
  trace :: "event list"

datatype run_result = ExitZero | NonZeroExit | LaunchFailure

text \<open>
  \<open>ToCsvFails f\<close>: writing the temporary file raises and leaves \<open>f\<close> there;
  \<open>ReplaceFails\<close>: the temporary file is written and \<^verbatim>\<open>os.replace\<close> raises.
\<close>

datatype save_outcome = SaveOk | ToCsvFails csv_file | ReplaceFails

datatype remove_outcome = RemoveOk | RemoveFails

record world =
  r_exit :: run_result
  r_output :: batch_file
  save_result :: save_outcome
  remove_result :: remove_outcome

definition to_csv :: "frame \<Rightarrow> csv_file" where
  "to_csv df = Csv (columns df) (rows df)"

definition save_atomic :: "save_outcome \<Rightarrow> frame \<Rightarrow> state \<Rightarrow> (exn + unit) \<times> state" where
  "save_atomic outcome df s =
     (case outcome of
        ToCsvFails f \<Rightarrow> (Inl OSError, s\<lparr>temp_file := f\<rparr>)
      | ReplaceFails \<Rightarrow> (Inl OSError, s\<lparr>temp_file := to_csv df\<rparr>)
      | SaveOk \<Rightarrow>
          (Inr (), s\<lparr>temp_file := Absent, automation_file := to_csv df,
                      trace := trace s @ [SaveHistory]\<rparr>))"

fun read_batch :: "batch_file \<Rightarrow> exn + string list \<times> long_row list" where
  "read_batch NoFile = Inl FileNotFoundError"
| "read_batch BadFile = Inl ParserError"
| "read_batch (BatchCsv cols rs) = Inr (cols, rs)"

fun batch_exists :: "batch_file \<Rightarrow> bool" where
  "batch_exists NoFile = False"
| "batch_exists BadFile = True"
| "batch_exists (BatchCsv cols rs) = True"

definition required_r_cols :: "string list" where
  "required_r_cols = [''date'', ''time'', ''classification'', ''conc'']"

text \<open>\<^verbatim>\<open>new_data.empty\<close>: no row or no column.\<close>

definition df_empty :: "string list \<Rightarrow> long_row list \<Rightarrow> bool" where
  "df_empty cols new_data = (cols = [] \<or> new_data = [])"

text \<open>Lines 81 to 140: everything in the \<^verbatim>\<open>try\<close> before the clean-up.\<close>

definition read_and_process :: "world \<Rightarrow> state \<Rightarrow> (exn + unit) \<times> state" where
  "read_and_process w s =
     (case read_batch (expected_csv s) of
        Inl e \<Rightarrow> (Inl e, s)
      | Inr (cols, new_data) \<Rightarrow>
          if \<not> df_empty cols new_data then
            if list_all (\<lambda>col. col \<in> set cols) required_r_cols then
              (case transform new_data of
                 Inl e \<Rightarrow> (Inl e, s)
               | Inr processed_batch \<Rightarrow>
                   let m = cap_history (merge_history (master_df s) processed_batch)
                   in save_atomic (save_result w) m (s\<lparr>master_df := m\<rparr>))
            else (Inr (), s)
          else (Inr (), s))"

text \<open>Line 143: \<^verbatim>\<open>os.remove(expected_csv)\<close>.\<close>

definition os_remove :: "remove_outcome \<Rightarrow> state \<Rightarrow> (exn + unit) \<times> state" where
  "os_remove outcome s =
     (case outcome of
        RemoveFails \<Rightarrow> (Inl OSError, s)
      | RemoveOk \<Rightarrow> (Inr (), s\<lparr>expected_csv := NoFile, trace := trace s @ [RemoveCsv]\<rparr>))"

text \<open>The body of the \<^verbatim>\<open>try\<close> of lines 80 to 143.\<close>

definition try_body :: "world \<Rightarrow> state \<Rightarrow> (exn + unit) \<times> state" where
  "try_body w s =
     (case read_and_process w s of
        (Inl e, s') \<Rightarrow> (Inl e, s')
      | (Inr u, s') \<Rightarrow> os_remove (remove_result w) s')"

datatype status = Continue | Terminated exn

text \<open>
  Lines 67 to 74: \<^verbatim>\<open>subprocess.run(cmd, check=True, ...)\<close>. The R script leaves
  \<open>r_output w\<close> at the expected path, whatever its exit; a non-zero exit raises
  \<^verbatim>\<open>CalledProcessError\<close>, a command that cannot be started raises another
  exception.
\<close>

definition subprocess_run :: "world \<Rightarrow> state \<Rightarrow> (exn + unit) \<times> state" where
  "subprocess_run w s =
     (let s1 = s\<lparr>expected_csv := r_output w, trace := trace s @ [RunRscript]\<rparr> in
      case r_exit w of
        ExitZero \<Rightarrow> (Inr (), s1)
      | NonZeroExit \<Rightarrow> (Inl CalledProcessError, s1)
      | LaunchFailure \<Rightarrow> (Inl FileNotFoundError, s1))"

definition time_sleep :: "nat \<Rightarrow> state \<Rightarrow> state" where
  "time_sleep n s = s\<lparr>trace := trace s @ [Sleep n]\<rparr>"

text \<open>
  One pass through the \<^verbatim>\<open>while True\<close> loop. Only \<^verbatim>\<open>CalledProcessError\<close>
  is caught at line 70; whatever the \<^verbatim>\<open>try\<close> of line 80 raises is caught at
  line 145.
\<close>

definition main_iteration :: "world \<Rightarrow> state \<Rightarrow> status \<times> state" where
  "main_iteration w s0 =
     (case subprocess_run w s0 of
        (Inl e, s1) \<Rightarrow>
          if e = CalledProcessError then (Continue, time_sleep WAIT_TIME s1)
          else (Terminated e, s1)
      | (Inr u, s1) \<Rightarrow>
          (let s2 = (if batch_exists (expected_csv s1) then snd (try_body w s1) else s1)
           in (Continue, time_sleep WAIT_TIME s2)))"

text \<open>The loop, for the iterations whose worlds are listed; it stops when one terminates.\<close>

fun main_loop :: "world list \<Rightarrow> state \<Rightarrow> status \<times> state" where
  "main_loop [] s = (Continue, s)"
| "main_loop (w # ws) s =
     (case main_iteration w s of
        (Continue, s') \<Rightarrow> main_loop ws s'
      | (Terminated e, s') \<Rightarrow> (Terminated e, s'))"

subsection \<open>Observations used in the statements\<close>

text \<open>The last row of a table with a given (Date, Time), if there is one.\<close>

definition last_with_key :: "string \<times> string \<Rightarrow> wide_row list \<Rightarrow> wide_row option" where
  "last_with_key k rs = find (\<lambda>r. row_key r = k) (rev rs)"

text \<open>The invariant of the history: ascending by (Date, Time), no key twice.\<close>

definition strictly_ascending :: "frame \<Rightarrow> bool" where
  "strictly_ascending df =
     (sorted_wrt (<) (map row_key (rows df)) \<and> distinct (map row_key (rows df)))"

text \<open>The events an iteration appends to the trace.\<close>

definition new_events :: "state \<Rightarrow> state \<Rightarrow> event list" where
  "new_events s s' = drop (length (trace s)) (trace s')"




subsection \<open>Concrete inputs\<close>

definition sample_batch :: "long_row list" where
  "sample_batch =
     [\<lparr>date = ''2024-01-01'', time = ''00:00'', classification = ''Bacteria'', conc = 10\<rparr>,
      \<lparr>date = ''2024-01-01'', time = ''00:00'', classification = ''Fungi'', conc = 3\<rparr>]"

definition sample_wide_row :: wide_row where
  "sample_wide_row =
     \<lparr>Date = ''2024-01-01'', Time = ''00:00'', Bacteria = Some 10, Fungi = Some 3,
      Pollen = Some 0, PM2_5 = Some 0, PM10 = Some 0\<rparr>"


definition sample_state :: state where
  "sample_state =
     \<lparr>master_df = empty_history, automation_file = Absent, temp_file = Absent,
      expected_csv = NoFile, trace = []\<rparr>"

text \<open>A history of 5001 rows with ascending, distinct dates.\<close>

definition sample_row :: "nat \<Rightarrow> wide_row" where
  "sample_row n =
     \<lparr>Date = replicate n (CHR ''9''), Time = ''00:00'', Bacteria = Some 0, Fungi = Some 0,
      Pollen = Some 0, PM2_5 = Some 0, PM10 = Some 0\<rparr>"

definition sample_history :: frame where
  "sample_history = \<lparr>columns = final_cols, rows = map sample_row [0..<5001]\<rparr>"

section \<open>Properties\<close>

subsection \<open>Lists with distinct keys\<close>

lemma keys_drop_duplicates: "set (map row_key (drop_duplicates rs)) = set (map row_key rs)"
  by (induction rs) auto

lemma distinct_drop_duplicates: "distinct (map row_key (drop_duplicates rs))"
  by (induction rs) (auto simp: keys_drop_duplicates simp flip: set_map)

lemma find_snoc:
  "find P (xs @ [x]) =
     (case find P xs of Some y \<Rightarrow> Some y | None \<Rightarrow> if P x then Some x else None)"
  by (induction xs) auto

lemma find_append_case:
  "find P (xs @ ys) = (case find P xs of Some y \<Rightarrow> Some y | None \<Rightarrow> find P ys)"
  by (induction xs) auto

lemma find_None_key: "(find (\<lambda>r. f r = k) xs = None) = (k \<notin> f ` set xs)"
  by (induction xs) auto

lemma find_drop_duplicates:
  "find (\<lambda>r. row_key r = k) (drop_duplicates rs) = last_with_key k rs"
proof (induction rs)
  case Nil
  show ?case by (simp add: last_with_key_def)
next
  case (Cons r rs)
  have IH: "find (\<lambda>r. row_key r = k) (drop_duplicates rs) = find (\<lambda>r. row_key r = k) (rev rs)"
    using Cons by (simp add: last_with_key_def)
  show ?case
  proof (cases "row_key r \<in> row_key ` set rs")
    case True
    show ?thesis
    proof (cases "find (\<lambda>r. row_key r = k) (rev rs)")
      case None
      then have "k \<notin> row_key ` set rs" by (simp add: find_None_key)
      then have "row_key r \<noteq> k" using True by auto
      then show ?thesis using True IH None by (simp add: last_with_key_def find_snoc)
    next
      case (Some y)
      then show ?thesis using True IH by (simp add: last_with_key_def find_snoc)
    qed
  next
    case False
    show ?thesis
    proof (cases "row_key r = k")
      case True
      then have "k \<notin> row_key ` set (rev rs)" using False by simp
      then have "find (\<lambda>r. row_key r = k) (rev rs) = None" by (simp add: find_None_key)
      then show ?thesis using False True by (simp add: last_with_key_def find_snoc)
    next
      case neq: False
      then show ?thesis using False IH
        by (simp add: last_with_key_def find_snoc split: option.splits)
    qed
  qed
qed

lemma last_with_key_append:
  "last_with_key k (xs @ ys) = (case last_with_key k ys of Some r \<Rightarrow> Some r | None \<Rightarrow> last_with_key k xs)"
  unfolding last_with_key_def by (simp add: find_append_case)

lemma find_key_unique:
  assumes "distinct (map f xs)" "distinct (map f ys)" "set xs = set ys"
  shows "find (\<lambda>r. f r = k) xs = find (\<lambda>r. f r = k) ys"
proof (cases "find (\<lambda>r. f r = k) xs")
  case None
  then have "k \<notin> f ` set xs" by (simp add: find_None_key)
  then have "k \<notin> f ` set ys" using assms(3) by simp
  then have "find (\<lambda>r. f r = k) ys = None" by (simp add: find_None_key)
  then show ?thesis using None by simp
next
  case (Some x)
  then have x: "x \<in> set xs" "f x = k" by (auto simp: find_Some_iff)
  then have "k \<in> f ` set ys" using assms(3) by auto
  then obtain y where y: "find (\<lambda>r. f r = k) ys = Some y"
    using find_None_key[of f k ys] by (cases "find (\<lambda>r. f r = k) ys") auto
  then have "y \<in> set ys" "f y = k" by (auto simp: find_Some_iff)
  moreover have "inj_on f (set xs)" using assms(1) by (simp add: distinct_map)
  ultimately have "x = y" using x assms(3) by (auto dest: inj_onD)
  then show ?thesis using Some y by simp
qed

lemma find_key_member:
  assumes "distinct (map f xs)" "x \<in> set xs"
  shows "find (\<lambda>r. f r = f x) xs = Some x"
  using assms by (induction xs) (auto simp: rev_image_eqI)

lemma set_eq_of_find:
  assumes "distinct (map f xs)" "distinct (map f ys)"
    and "\<And>k. find (\<lambda>r. f r = k) xs = find (\<lambda>r. f r = k) ys"
  shows "set xs = set ys"
proof -
  have mem: "x \<in> set zs" if "find (\<lambda>r. f r = k) zs = Some x" for x k zs
    using that by (induction zs) (auto split: if_splits)
  have "x \<in> set ys" if "x \<in> set xs" for x
  proof -
    have "find (\<lambda>r. f r = f x) ys = Some x"
      using find_key_member[OF assms(1) that] assms(3)[of "f x"] by simp
    then show ?thesis by (rule mem)
  qed
  moreover have "x \<in> set xs" if "x \<in> set ys" for x
  proof -
    have "find (\<lambda>r. f r = f x) xs = Some x"
      using find_key_member[OF assms(2) that] assms(3)[of "f x"] by simp
    then show ?thesis by (rule mem)
  qed
  ultimately show ?thesis by blast
qed

lemma sorted_distinct_key_unique:
  assumes "sorted (map f xs)" "distinct (map f xs)" "sorted (map f ys)" "distinct (map f ys)"
    and "set xs = set ys"
  shows "xs = ys"
proof -
  have "map f xs = map f ys"
    using assms by (intro sorted_distinct_set_unique) auto
  moreover have "inj_on f (set xs \<union> set ys)" using assms(2,5) by (simp add: distinct_map)
  ultimately show ?thesis by (rule map_inj_on)
qed

lemma distinct_keys_sort_values:
  "distinct (map row_key (sort_values rs)) = distinct (map row_key rs)"
  by (simp add: distinct_map sort_values_def)

lemma set_sort_values: "set (sort_values rs) = set rs"
  by (simp add: sort_values_def)

lemma sorted_sort_values: "sorted (map row_key (sort_values rs))"
  by (simp add: sort_values_def)

lemma find_sort_values:
  "distinct (map row_key rs) \<Longrightarrow>
   find (\<lambda>r. row_key r = k) (sort_values rs) = find (\<lambda>r. row_key r = k) rs"
  by (rule find_key_unique) (simp_all add: distinct_keys_sort_values set_sort_values)

subsection \<open>Merge\<close>

lemma columns_merge_history:
  "columns (merge_history a b) = columns a @ filter (\<lambda>c. c \<notin> set (columns a)) (columns b)"
  by (simp add: merge_history_def concat_frames_def Let_def)

lemma rows_merge_history:
  "rows (merge_history a b) = sort_values (drop_duplicates (rows a @ rows b))"
  by (simp add: merge_history_def concat_frames_def Let_def)

lemma distinct_rows_merge_history: "distinct (map row_key (rows (merge_history a b)))"
  by (simp only: rows_merge_history distinct_keys_sort_values distinct_drop_duplicates)

lemma sorted_rows_merge_history: "sorted (map row_key (rows (merge_history a b)))"
  by (simp only: rows_merge_history sorted_sort_values)

lemma find_rows_merge_history:
  "find (\<lambda>r. row_key r = k) (rows (merge_history a b)) =
     (case last_with_key k (rows b) of Some r \<Rightarrow> Some r | None \<Rightarrow> last_with_key k (rows a))"
  by (simp only: rows_merge_history find_sort_values[OF distinct_drop_duplicates]
      find_drop_duplicates last_with_key_append)

lemma set_drop_duplicates: "set (drop_duplicates rs) \<subseteq> set rs"
  by (induction rs) auto

lemma last_with_key_distinct:
  assumes "distinct (map row_key rs)"
  shows "last_with_key k rs = find (\<lambda>r. row_key r = k) rs"
  unfolding last_with_key_def
  by (rule find_key_unique) (use assms in \<open>simp_all add: rev_map[symmetric]\<close>)

lemma rows_merge_idem:
  "rows (merge_history (merge_history a b) b) = rows (merge_history a b)"
proof -
  let ?m = "merge_history a b"
  have eq: "find (\<lambda>r. row_key r = k) (rows (merge_history ?m b)) = find (\<lambda>r. row_key r = k) (rows ?m)" for k
    by (simp add: find_rows_merge_history last_with_key_distinct[OF distinct_rows_merge_history]
        split: option.splits)
  have "set (rows (merge_history ?m b)) = set (rows ?m)"
    by (rule set_eq_of_find[where f = row_key, OF distinct_rows_merge_history
          distinct_rows_merge_history eq])
  then show ?thesis
    by (rule sorted_distinct_key_unique[where f = row_key, OF sorted_rows_merge_history
          distinct_rows_merge_history sorted_rows_merge_history distinct_rows_merge_history])
qed

lemma columns_merge_idem:
  "columns (merge_history (merge_history a b) b) = columns (merge_history a b)"
proof -
  have "filter (\<lambda>c. c \<notin> set xs \<and> (c \<in> set ys \<longrightarrow> c \<in> set xs)) ys = []" for xs ys :: "string list"
    by (auto simp: filter_empty_conv)
  then show ?thesis by (simp add: columns_merge_history)
qed

text \<open>
  Claim C6. Merging a batch into a history and merging the same batch again into the
  result gives the table that merging it once gives: the same columns and the same rows.
\<close>

theorem merge_history_idempotent:
  "merge_history (merge_history H B) B = merge_history H B"
  by (rule frame.equality) (simp_all add: rows_merge_idem columns_merge_idem)

lemma strict_keys: "sorted_wrt (<) (map row_key (rows (merge_history a b)))"
  by (simp add: strict_sorted_iff sorted_rows_merge_history distinct_rows_merge_history)

lemma strict_cap:
  "sorted_wrt (<) (map row_key (rows df)) \<Longrightarrow> sorted_wrt (<) (map row_key (rows (cap_history df)))"
  by (simp add: cap_history_def drop_map[symmetric])

lemma strictly_ascending_iff: "strictly_ascending df = sorted_wrt (<) (map row_key (rows df))"
  by (auto simp: strictly_ascending_def strict_sorted_iff)

lemma master_read_and_process:
  "master_df (snd (read_and_process w s)) = master_df s \<or>
   strictly_ascending (master_df (snd (read_and_process w s)))"
  by (auto simp: read_and_process_def save_atomic_def Let_def strictly_ascending_iff strict_cap strict_keys
      split: sum.splits prod.splits save_outcome.splits)

lemma master_os_remove: "master_df (snd (os_remove r s)) = master_df s"
  by (simp add: os_remove_def split: remove_outcome.splits)

lemma master_try_body:
  "master_df (snd (try_body w s)) = master_df s \<or>
   strictly_ascending (master_df (snd (try_body w s)))"
  using master_read_and_process[of w s]
  by (auto simp: try_body_def master_os_remove split: prod.splits sum.splits)

lemma master_main_iteration:
  "master_df (snd (main_iteration w s)) = master_df s \<or>
   strictly_ascending (master_df (snd (main_iteration w s)))"
  using master_try_body[of w "s\<lparr>expected_csv := r_output w, trace := trace s @ [RunRscript]\<rparr>"]
  by (auto simp: main_iteration_def subprocess_run_def time_sleep_def Let_def
      split: run_result.splits)

lemma master_main_loop:
  "master_df (snd (main_loop ws s)) = master_df s \<or>
   strictly_ascending (master_df (snd (main_loop ws s)))"
proof (induction ws arbitrary: s)
  case Nil
  show ?case by simp
next
  case (Cons w ws)
  obtain st s' where it: "main_iteration w s = (st, s')" by (cases "main_iteration w s")
  show ?case
  proof (cases st)
    case Continue
    then have "main_loop (w # ws) s = main_loop ws s'" using it by simp
    then show ?thesis using Cons[of s'] master_main_iteration[of w s] it by auto
  next
    case (Terminated e)
    then show ?thesis using master_main_iteration[of w s] it by auto
  qed
qed

text \<open>
  Claim C2. The merged table is strictly ascending by (Date, Time) and has no key twice;
  the size limit keeps that; and after one iteration, and after any number of iterations,
  the master table is either the one the loop started with or a table with this invariant.
\<close>

theorem sort_invariant:
  "strictly_ascending (merge_history H B)
   \<and> strictly_ascending (cap_history (merge_history H B))
   \<and> (master_df (snd (main_iteration w s)) = master_df s
        \<or> strictly_ascending (master_df (snd (main_iteration w s))))
   \<and> (master_df (snd (main_loop ws s)) = master_df s
        \<or> strictly_ascending (master_df (snd (main_loop ws s))))"
  using master_main_iteration master_main_loop
  by (simp add: strictly_ascending_iff strict_keys strict_cap)

text \<open>
  Claim C1. The merge takes the rows of both tables, keeps for every (Date, Time) one
  row, the last one of the incoming batch when the batch has the key and the last one of
  the current table otherwise, and returns them ascending by (Date, Time). Merging the
  incoming row (D, T, 7, 7, 7, 0, 0) into a history holding (D, T, 5, 5, 5, 0, 0) gives
  the row (D, T, 7, 7, 7, 0, 0).
\<close>

theorem merge_history_spec:
  "columns (merge_history cur inc) = columns cur @ filter (\<lambda>c. c \<notin> set (columns cur)) (columns inc)
   \<and> set (rows (merge_history cur inc)) \<subseteq> set (rows cur) \<union> set (rows inc)
   \<and> row_key ` set (rows (merge_history cur inc)) = row_key ` set (rows cur) \<union> row_key ` set (rows inc)
   \<and> distinct (map row_key (rows (merge_history cur inc)))
   \<and> sorted (map row_key (rows (merge_history cur inc)))
   \<and> find (\<lambda>r. row_key r = k) (rows (merge_history cur inc)) =
       (case last_with_key k (rows inc) of Some r \<Rightarrow> Some r | None \<Rightarrow> last_with_key k (rows cur))
   \<and> merge_history
        \<lparr>columns = final_cols,
         rows = [\<lparr>Date = D, Time = T, Bacteria = Some 5, Fungi = Some 5, Pollen = Some 5,
                  PM2_5 = Some 0, PM10 = Some 0\<rparr>]\<rparr>
        \<lparr>columns = final_cols,
         rows = [\<lparr>Date = D, Time = T, Bacteria = Some 7, Fungi = Some 7, Pollen = Some 7,
                  PM2_5 = Some 0, PM10 = Some 0\<rparr>]\<rparr>
       = \<lparr>columns = final_cols,
          rows = [\<lparr>Date = D, Time = T, Bacteria = Some 7, Fungi = Some 7, Pollen = Some 7,
                   PM2_5 = Some 0, PM10 = Some 0\<rparr>]\<rparr>"
proof -
  have "set (rows (merge_history cur inc)) \<subseteq> set (rows cur) \<union> set (rows inc)"
    using set_drop_duplicates[of "rows cur @ rows inc"]
    by (simp add: rows_merge_history set_sort_values)
  moreover have "row_key ` set (rows (merge_history cur inc)) = row_key ` set (rows cur) \<union> row_key ` set (rows inc)"
    using keys_drop_duplicates[of "rows cur @ rows inc"]
    by (simp add: rows_merge_history set_sort_values)
  moreover have "merge_history
        \<lparr>columns = final_cols,
         rows = [\<lparr>Date = D, Time = T, Bacteria = Some 5, Fungi = Some 5, Pollen = Some 5,
                  PM2_5 = Some 0, PM10 = Some 0\<rparr>]\<rparr>
        \<lparr>columns = final_cols,
         rows = [\<lparr>Date = D, Time = T, Bacteria = Some 7, Fungi = Some 7, Pollen = Some 7,
                  PM2_5 = Some 0, PM10 = Some 0\<rparr>]\<rparr>
       = \<lparr>columns = final_cols,
          rows = [\<lparr>Date = D, Time = T, Bacteria = Some 7, Fungi = Some 7, Pollen = Some 7,
                   PM2_5 = Some 0, PM10 = Some 0\<rparr>]\<rparr>"
    by (simp add: merge_history_def concat_frames_def sort_values_def row_key_def)
  ultimately show ?thesis
    by (simp only: columns_merge_history distinct_rows_merge_history sorted_rows_merge_history
        find_rows_merge_history simp_thms)
qed

subsection \<open>Size limit\<close>

lemma cap_history_sorted_split:
  assumes "sorted (map row_key rs)"
  shows "\<forall>a\<in>set (take n rs). \<forall>b\<in>set (drop n rs). row_key a \<le> row_key b"
proof -
  have "sorted (map row_key (take n rs) @ map row_key (drop n rs))"
    using assms by (simp flip: map_append)
  then show ?thesis by (auto simp: sorted_append)
qed

lemma cap_history_strict_split:
  assumes "sorted (map row_key rs)" "distinct (map row_key rs)"
  shows "\<forall>a\<in>set (take n rs). \<forall>b\<in>set (drop n rs). row_key a < row_key b"
proof -
  have "sorted_wrt (<) (map row_key (take n rs) @ map row_key (drop n rs))"
    using assms by (simp add: strict_sorted_iff flip: map_append)
  then show ?thesis by (auto simp: sorted_wrt_append)
qed

lemma cap_history_rows:
  "5000 < length (rows t) \<Longrightarrow>
     length (rows (cap_history t)) = 5000
   \<and> columns (cap_history t) = columns t
   \<and> rows t = take (length (rows t) - 5000) (rows t) @ rows (cap_history t)"
  by (simp add: cap_history_def)

lemma cap_history_small: "length (rows t) \<le> 5000 \<Longrightarrow> cap_history t = t"
  by (simp add: cap_history_def)

lemma cap_history_le:
  "sorted (map row_key (rows t)) \<Longrightarrow> 5000 < length (rows t) \<Longrightarrow>
   \<forall>a\<in>set (take (length (rows t) - 5000) (rows t)).
     \<forall>b\<in>set (rows (cap_history t)). row_key a \<le> row_key b"
  using cap_history_sorted_split[of "rows t" "length (rows t) - 5000"]
  by (simp add: cap_history_def)

lemma cap_history_less:
  "sorted (map row_key (rows t)) \<Longrightarrow> distinct (map row_key (rows t)) \<Longrightarrow>
   5000 < length (rows t) \<Longrightarrow>
   \<forall>a\<in>set (take (length (rows t) - 5000) (rows t)).
     \<forall>b\<in>set (rows (cap_history t)). row_key a < row_key b"
  using cap_history_strict_split[of "rows t" "length (rows t) - 5000"]
  by (simp add: cap_history_def)

text \<open>
  Claim C3. A table of more than 5000 rows is cut to exactly 5000 rows, the trailing ones,
  with the columns unchanged. When the table is ascending by (Date, Time), no evicted row
  has a larger key than a retained row; the table the loop cuts is the merged one, and
  there every evicted row has a strictly smaller key than every retained row, so the
  retained rows are the 5000 largest by (Date, Time). A table of at most 5000 rows is left
  as it is.
\<close>

theorem cap_history_spec:
  "(5000 < length (rows t) \<longrightarrow>
      length (rows (cap_history t)) = 5000
    \<and> columns (cap_history t) = columns t
    \<and> rows t = take (length (rows t) - 5000) (rows t) @ rows (cap_history t))
   \<and> (5000 < length (rows t) \<and> sorted (map row_key (rows t)) \<longrightarrow>
        (\<forall>a\<in>set (take (length (rows t) - 5000) (rows t)).
           \<forall>b\<in>set (rows (cap_history t)). row_key a \<le> row_key b))
   \<and> (5000 < length (rows (merge_history H B)) \<longrightarrow>
        (\<forall>a\<in>set (take (length (rows (merge_history H B)) - 5000) (rows (merge_history H B))).
           \<forall>b\<in>set (rows (cap_history (merge_history H B))). row_key a < row_key b))
   \<and> (length (rows t) \<le> 5000 \<longrightarrow> cap_history t = t)"
  using cap_history_rows[of t] cap_history_small[of t] cap_history_le[of t]
    cap_history_less[OF sorted_rows_merge_history distinct_rows_merge_history, of H B]
  by blast

lemma replicate_less: "m < n \<Longrightarrow> replicate m (c::char) < replicate n c"
proof (induction m arbitrary: n)
  case 0
  then obtain n' where "n = Suc n'" by (cases n) auto
  then show ?case by simp
next
  case (Suc m)
  then obtain n' where "n = Suc n'" by (cases n) auto
  then show ?case using Suc by simp
qed

lemma strict_sample_rows: "sorted_wrt (<) (map row_key (map sample_row [0..<m]))"
  by (simp add: sorted_wrt_iff_nth_less row_key_def sample_row_def replicate_less)

lemma drop_duplicates_distinct:
  "distinct (map row_key rs) \<Longrightarrow> drop_duplicates rs = rs"
  by (induction rs) auto

lemma merge_sample_history: "merge_history sample_history empty_history = sample_history"
proof -
  have s: "sorted (map row_key (rows sample_history))"
    and d: "distinct (map row_key (rows sample_history))"
    using strict_sample_rows[of 5001] by (simp_all add: sample_history_def strict_sorted_iff)
  have "rows (merge_history sample_history empty_history) = rows sample_history"
    using s d
    by (simp add: rows_merge_history empty_history_def drop_duplicates_distinct sort_values_def
        sort_key_id_if_sorted)
  moreover have "columns (merge_history sample_history empty_history) = columns sample_history"
    by (simp add: columns_merge_history empty_history_def sample_history_def)
  ultimately show ?thesis by (rule_tac frame.equality) simp_all
qed

theorem cap_history_spec_witness:
  "length (rows sample_history) = 5001
   \<and> sorted (map row_key (rows sample_history))
   \<and> merge_history sample_history empty_history = sample_history
   \<and> length (rows (cap_history sample_history)) = 5000
   \<and> rows sample_history = [sample_row 0] @ rows (cap_history sample_history)
   \<and> sample_row 5000 \<in> set (rows (cap_history sample_history))
   \<and> row_key (sample_row 0) < row_key (sample_row 5000)
   \<and> cap_history empty_history = empty_history"
proof -
  have s: "sorted (map row_key (rows sample_history))"
    using strict_sample_rows[of 5001] by (simp add: sample_history_def strict_sorted_iff)
  have l: "length (rows sample_history) = 5001"
    by (simp add: sample_history_def)
  have t: "take 1 (rows sample_history) = [sample_row 0]"
    by (simp add: sample_history_def take_map take_upt)
  have e: "length (rows empty_history) \<le> 5000" by (simp add: empty_history_def)
  have "rows (cap_history sample_history) = map sample_row [1..<5001]"
    by (simp add: cap_history_def sample_history_def drop_map)
  then have m: "sample_row 5000 \<in> set (rows (cap_history sample_history))" by simp
  have c: "\<forall>a\<in>set (take 1 (rows sample_history)).
             \<forall>b\<in>set (rows (cap_history sample_history)). row_key a < row_key b"
    using cap_history_spec[of sample_history sample_history empty_history] l merge_sample_history
    by simp
  have "row_key (sample_row 0) < row_key (sample_row 5000)"
    using c m unfolding t by simp
  then show ?thesis
    using cap_history_spec[of sample_history sample_history empty_history]
      cap_history_spec[of empty_history sample_history empty_history]
      s l t e m merge_sample_history
    by simp
qed

subsection \<open>Loading the history\<close>

text \<open>
  Claim C7. Loading always returns a table and never an exception. It returns the empty
  table with the seven canonical columns when the file is absent, when it cannot be read,
  and when it lacks the column Date or the column Time; otherwise it returns the columns
  and rows of the file.
\<close>

theorem load_existing_history_spec:
  "(\<exists>df. load_existing_history f = Inr df)
   \<and> load_existing_history Absent = Inr empty_history
   \<and> load_existing_history Unreadable = Inr empty_history
   \<and> load_existing_history (Csv cs rs) =
       (if ''Date'' \<in> set cs \<and> ''Time'' \<in> set cs then Inr \<lparr>columns = cs, rows = rs\<rparr>
        else Inr empty_history)
   \<and> columns empty_history = [''Date'', ''Time'', ''Bacteria'', ''Fungi'', ''Pollen'', ''PM2.5'', ''PM10'']
   \<and> rows empty_history = []"
  by (cases f) (simp_all add: load_existing_history_def empty_history_def final_cols_def)

subsection \<open>The iteration\<close>

lemma subprocess_run_simps:
  "snd (subprocess_run w s) = s\<lparr>expected_csv := r_output w, trace := trace s @ [RunRscript]\<rparr>"
  "fst (subprocess_run w s) =
     (case r_exit w of ExitZero \<Rightarrow> Inr () | NonZeroExit \<Rightarrow> Inl CalledProcessError
      | LaunchFailure \<Rightarrow> Inl FileNotFoundError)"
  by (simp_all add: subprocess_run_def Let_def split: run_result.splits)

lemma main_iteration_nonzero:
  "r_exit w = NonZeroExit \<Longrightarrow>
   main_iteration w s =
     (Continue, s\<lparr>expected_csv := r_output w, trace := trace s @ [RunRscript, Sleep WAIT_TIME]\<rparr>)"
  by (simp add: main_iteration_def subprocess_run_def time_sleep_def Let_def)

lemma main_iteration_launch:
  "r_exit w = LaunchFailure \<Longrightarrow>
   main_iteration w s =
     (Terminated FileNotFoundError,
      s\<lparr>expected_csv := r_output w, trace := trace s @ [RunRscript]\<rparr>)"
  by (simp add: main_iteration_def subprocess_run_def time_sleep_def Let_def)

lemma main_iteration_zero:
  "r_exit w = ExitZero \<Longrightarrow>
   main_iteration w s =
     (Continue,
      time_sleep WAIT_TIME
        (if batch_exists (r_output w) then snd (try_body w (snd (subprocess_run w s)))
         else snd (subprocess_run w s)))"
  by (simp add: main_iteration_def subprocess_run_def Let_def)

lemma read_and_process_missing_cols:
  "expected_csv s = BatchCsv cols rs \<Longrightarrow> \<not> list_all (\<lambda>col. col \<in> set cols) required_r_cols \<Longrightarrow>
   read_and_process w s = (Inr (), s)"
  by (simp add: read_and_process_def)

text \<open>
  Claim C8. In an iteration whose R script exits with a non-zero status, or whose output
  file is there and lacks one of the columns date, time, classification, conc, nothing is
  merged or saved: the master table, the history file and the temporary file are as
  before, the iteration ends with the sleep of \<open>WAIT_TIME\<close> seconds, and the loop
  continues.
\<close>

theorem failed_iteration_frame:
  assumes "r_exit w = NonZeroExit
     \<or> (r_exit w = ExitZero \<and> r_output w = BatchCsv cols rs
        \<and> \<not> list_all (\<lambda>col. col \<in> set cols) required_r_cols)"
  shows "fst (main_iteration w s) = Continue
     \<and> master_df (snd (main_iteration w s)) = master_df s
     \<and> automation_file (snd (main_iteration w s)) = automation_file s
     \<and> temp_file (snd (main_iteration w s)) = temp_file s
     \<and> trace (snd (main_iteration w s)) =
         trace s @ [RunRscript]
           @ (if r_exit w = ExitZero \<and> remove_result w = RemoveOk then [RemoveCsv] else [])
           @ [Sleep WAIT_TIME]"
  using assms
proof
  assume "r_exit w = NonZeroExit"
  then show ?thesis by (simp add: main_iteration_nonzero)
next
  assume a: "r_exit w = ExitZero \<and> r_output w = BatchCsv cols rs
        \<and> \<not> list_all (\<lambda>col. col \<in> set cols) required_r_cols"
  let ?s1 = "snd (subprocess_run w s)"
  have e: "expected_csv ?s1 = BatchCsv cols rs" using a by (simp add: subprocess_run_simps)
  have "read_and_process w ?s1 = (Inr (), ?s1)"
    using e a by (simp add: read_and_process_missing_cols)
  then have "snd (try_body w ?s1) = snd (os_remove (remove_result w) ?s1)"
    by (simp add: try_body_def)
  then show ?thesis using a
    by (cases "remove_result w")
       (simp_all add: main_iteration_zero os_remove_def time_sleep_def subprocess_run_simps)
qed

theorem failed_iteration_frame_witness:
  "r_exit \<lparr>r_exit = NonZeroExit, r_output = NoFile, save_result = SaveOk, remove_result = RemoveOk\<rparr>
     = NonZeroExit
   \<and> main_iteration
       \<lparr>r_exit = NonZeroExit, r_output = NoFile, save_result = SaveOk, remove_result = RemoveOk\<rparr>
       sample_state
     = (Continue, sample_state\<lparr>trace := [RunRscript, Sleep 60]\<rparr>)
   \<and> \<not> list_all (\<lambda>col. col \<in> set [''date'', ''time'', ''classification'']) required_r_cols
   \<and> main_iteration
       \<lparr>r_exit = ExitZero, r_output = BatchCsv [''date'', ''time'', ''classification''] sample_batch,
        save_result = SaveOk, remove_result = RemoveOk\<rparr>
       sample_state
     = (Continue, sample_state\<lparr>trace := [RunRscript, RemoveCsv, Sleep 60]\<rparr>)"
proof -
  let ?w1 = "\<lparr>r_exit = NonZeroExit, r_output = NoFile, save_result = SaveOk, remove_result = RemoveOk\<rparr>"
  let ?w2 = "\<lparr>r_exit = ExitZero, r_output = BatchCsv [''date'', ''time'', ''classification''] sample_batch,
        save_result = SaveOk, remove_result = RemoveOk\<rparr>"
  have n: "\<not> list_all (\<lambda>col. col \<in> set [''date'', ''time'', ''classification'']) required_r_cols"
    by (simp add: required_r_cols_def)
  have 1: "main_iteration ?w1 sample_state = (Continue, sample_state\<lparr>trace := [RunRscript, Sleep 60]\<rparr>)"
    using failed_iteration_frame[of ?w1 "[]" "[]" sample_state]
    by (simp add: main_iteration_nonzero sample_state_def WAIT_TIME_def)
  have e2: "expected_csv (snd (main_iteration ?w2 sample_state)) = NoFile"
    by (simp add: main_iteration_zero try_body_def subprocess_run_simps read_and_process_def
         required_r_cols_def df_empty_def os_remove_def time_sleep_def)
  have 2: "main_iteration ?w2 sample_state = (Continue, sample_state\<lparr>trace := [RunRscript, RemoveCsv, Sleep 60]\<rparr>)"
    using failed_iteration_frame[of ?w2 "[''date'', ''time'', ''classification'']" sample_batch sample_state] n e2
    by (intro prod_eqI state.equality) (simp_all add: sample_state_def WAIT_TIME_def)
  show ?thesis using 1 2 n by simp
qed

lemma read_and_process_expected_csv:
  "expected_csv (snd (read_and_process w s)) = expected_csv s"
  by (simp add: read_and_process_def save_atomic_def Let_def
      split: sum.splits prod.splits save_outcome.splits)

lemma read_and_process_trace:
  "trace (snd (read_and_process w s)) = trace s \<or>
   trace (snd (read_and_process w s)) = trace s @ [SaveHistory]"
  by (simp add: read_and_process_def save_atomic_def Let_def
      split: sum.splits prod.splits save_outcome.splits)

lemma read_and_process_trace_raise:
  "isl (fst (read_and_process w s)) \<Longrightarrow> trace (snd (read_and_process w s)) = trace s"
  by (auto simp: read_and_process_def save_atomic_def Let_def
      split: sum.splits prod.splits save_outcome.splits if_splits)

lemma try_body_ok:
  assumes "fst (try_body w s) = Inr ()"
  shows "expected_csv (snd (try_body w s)) = NoFile
       \<and> trace (snd (try_body w s)) = trace (snd (read_and_process w s)) @ [RemoveCsv]"
  using assms
  by (cases "read_and_process w s"; cases "fst (read_and_process w s)"; cases "remove_result w")
     (auto simp: try_body_def os_remove_def)

lemma try_body_raises:
  assumes "isl (fst (try_body w s))"
  shows "expected_csv (snd (try_body w s)) = expected_csv s
       \<and> (trace (snd (try_body w s)) = trace s
          \<or> trace (snd (try_body w s)) = trace s @ [SaveHistory])"
proof (cases "fst (read_and_process w s)")
  case (Inl e)
  then have "try_body w s = read_and_process w s"
    by (cases "read_and_process w s") (simp add: try_body_def)
  then show ?thesis
    using Inl read_and_process_expected_csv[of w s] read_and_process_trace_raise[of w s] by simp
next
  case (Inr u)
  then have t: "try_body w s = os_remove (remove_result w) (snd (read_and_process w s))"
    by (cases "read_and_process w s") (simp add: try_body_def)
  then have r: "remove_result w = RemoveFails"
    using assms by (cases "remove_result w") (simp_all add: os_remove_def)
  then have "snd (try_body w s) = snd (read_and_process w s)"
    using t by (simp add: os_remove_def)
  then show ?thesis
    using read_and_process_expected_csv[of w s] read_and_process_trace[of w s] by simp
qed

lemma try_body_Inr_iff:
  "(fst (try_body w s) = Inr ()) =
     (remove_result w = RemoveOk \<and>
      (\<exists>cols rs. expected_csv s = BatchCsv cols rs \<and>
         (df_empty cols rs \<or> \<not> list_all (\<lambda>col. col \<in> set cols) required_r_cols
          \<or> (save_result w = SaveOk \<and> (\<exists>pb. transform rs = Inr pb)))))"
proof (cases "expected_csv s")
  case NoFile
  then show ?thesis by (simp add: try_body_def read_and_process_def)
next
  case BadFile
  then show ?thesis by (simp add: try_body_def read_and_process_def)
next
  case (BatchCsv cols rs)
  show ?thesis
  proof (cases "df_empty cols rs \<or> \<not> list_all (\<lambda>col. col \<in> set cols) required_r_cols")
    case True
    then have "read_and_process w s = (Inr (), s)"
      using BatchCsv by (auto simp: read_and_process_def)
    then show ?thesis using True BatchCsv
      by (cases "remove_result w") (auto simp: try_body_def os_remove_def)
  next
    case False
    show ?thesis
    proof (cases "transform rs")
      case (Inl e)
      then have "read_and_process w s = (Inl e, s)"
        using BatchCsv False by (simp add: read_and_process_def)
      then show ?thesis using False BatchCsv Inl by (simp add: try_body_def)
    next
      case (Inr pb)
      then show ?thesis using False BatchCsv
        by (cases "save_result w"; cases "remove_result w")
           (simp_all add: try_body_def read_and_process_def Let_def save_atomic_def os_remove_def)
    qed
  qed
qed

text \<open>
  Claim C10. Let the expected output file exist after the R script has run. When the
  script exited with status zero and the body of the \<^verbatim>\<open>try\<close> completes without an
  exception, the file is gone after the iteration and its removal is the last event before
  the sleep. When the body raises, or when the script did not exit with status zero, the
  file is still there and the iteration has not removed it. The body completes exactly
  when the file parses, is empty or lacks a required column or is transformed and saved,
  and the removal succeeds.
\<close>

theorem staging_file_removal:
  assumes "batch_exists (r_output w)"
  shows "(r_exit w = ExitZero \<and> fst (try_body w (snd (subprocess_run w s))) = Inr () \<longrightarrow>
            expected_csv (snd (main_iteration w s)) = NoFile
          \<and> (\<exists>pre. trace (snd (main_iteration w s)) = pre @ [RemoveCsv, Sleep WAIT_TIME]))
       \<and> (r_exit w = ExitZero \<and> isl (fst (try_body w (snd (subprocess_run w s)))) \<longrightarrow>
            expected_csv (snd (main_iteration w s)) = r_output w
          \<and> RemoveCsv \<notin> set (new_events s (snd (main_iteration w s))))
       \<and> (r_exit w \<noteq> ExitZero \<longrightarrow>
            expected_csv (snd (main_iteration w s)) = r_output w
          \<and> RemoveCsv \<notin> set (new_events s (snd (main_iteration w s))))
       \<and> (fst (try_body w (snd (subprocess_run w s))) = Inr ()) =
           (remove_result w = RemoveOk \<and>
            (\<exists>cols rs. r_output w = BatchCsv cols rs \<and>
               (df_empty cols rs \<or> \<not> list_all (\<lambda>col. col \<in> set cols) required_r_cols
                \<or> (save_result w = SaveOk \<and> (\<exists>pb. transform rs = Inr pb)))))"
proof -
  let ?s1 = "snd (subprocess_run w s)"
  have ok: "expected_csv (snd (main_iteration w s)) = NoFile
          \<and> (\<exists>pre. trace (snd (main_iteration w s)) = pre @ [RemoveCsv, Sleep WAIT_TIME])"
    if "r_exit w = ExitZero" "fst (try_body w ?s1) = Inr ()"
    using that assms try_body_ok[OF that(2)]
    by (simp add: main_iteration_zero time_sleep_def)
  have raises: "expected_csv (snd (main_iteration w s)) = r_output w
          \<and> RemoveCsv \<notin> set (new_events s (snd (main_iteration w s)))"
    if "r_exit w = ExitZero" "isl (fst (try_body w ?s1))"
    using that assms try_body_raises[OF that(2)]
    by (auto simp: main_iteration_zero time_sleep_def subprocess_run_simps new_events_def)
  have failed: "expected_csv (snd (main_iteration w s)) = r_output w
          \<and> RemoveCsv \<notin> set (new_events s (snd (main_iteration w s)))"
    if "r_exit w \<noteq> ExitZero"
    using that
    by (cases "r_exit w")
       (simp_all add: main_iteration_nonzero main_iteration_launch new_events_def)
  show ?thesis
    using ok raises failed try_body_Inr_iff[of w ?s1]
    by (simp add: subprocess_run_simps)
qed

lemma transform_sample_batch:
  "transform sample_batch = Inr \<lparr>columns = final_cols, rows = [sample_wide_row]\<rparr>"
  by (simp add: sample_batch_def sample_wide_row_def transform_def pivot_table_def reset_index_def
      rename_columns_def ensure_column_def select_columns_def final_cols_def project_row_def
      pivot_cell_def group_values_def long_key_def mean_def)

lemma merge_into_empty_history:
  "cap_history (merge_history empty_history \<lparr>columns = final_cols, rows = [sample_wide_row]\<rparr>)
     = \<lparr>columns = final_cols, rows = [sample_wide_row]\<rparr>"
  by (simp add: cap_history_def merge_history_def concat_frames_def empty_history_def
      sort_values_def Let_def)

lemma sample_batch_accepted:
  "\<not> df_empty required_r_cols sample_batch"
  "list_all (\<lambda>col. col \<in> set required_r_cols) required_r_cols"
  by (simp_all add: df_empty_def required_r_cols_def sample_batch_def)

lemma sample_state_simps:
  "master_df sample_state = empty_history" "automation_file sample_state = Absent"
  "temp_file sample_state = Absent" "expected_csv sample_state = NoFile" "trace sample_state = []"
  by (simp_all add: sample_state_def)

theorem staging_file_removal_witness:
  "batch_exists (BatchCsv required_r_cols sample_batch)
   \<and> fst (try_body
        \<lparr>r_exit = ExitZero, r_output = BatchCsv required_r_cols sample_batch,
         save_result = SaveOk, remove_result = RemoveOk\<rparr>
        (snd (subprocess_run
          \<lparr>r_exit = ExitZero, r_output = BatchCsv required_r_cols sample_batch,
           save_result = SaveOk, remove_result = RemoveOk\<rparr> sample_state))) = Inr ()
   \<and> expected_csv (snd (main_iteration
        \<lparr>r_exit = ExitZero, r_output = BatchCsv required_r_cols sample_batch,
         save_result = SaveOk, remove_result = RemoveOk\<rparr> sample_state)) = NoFile
   \<and> trace (snd (main_iteration
        \<lparr>r_exit = ExitZero, r_output = BatchCsv required_r_cols sample_batch,
         save_result = SaveOk, remove_result = RemoveOk\<rparr> sample_state))
       = [RunRscript, SaveHistory, RemoveCsv, Sleep 60]
   \<and> batch_exists BadFile
   \<and> expected_csv (snd (main_iteration
        \<lparr>r_exit = ExitZero, r_output = BadFile, save_result = SaveOk, remove_result = RemoveOk\<rparr>
        sample_state)) = BadFile
   \<and> expected_csv (snd (main_iteration
        \<lparr>r_exit = NonZeroExit, r_output = BadFile, save_result = SaveOk, remove_result = RemoveOk\<rparr>
        sample_state)) = BadFile"
proof -
  let ?ok = "\<lparr>r_exit = ExitZero, r_output = BatchCsv required_r_cols sample_batch,
         save_result = SaveOk, remove_result = RemoveOk\<rparr>"
  let ?bad = "\<lparr>r_exit = ExitZero, r_output = BadFile, save_result = SaveOk,
         remove_result = RemoveOk\<rparr>"
  let ?failed = "\<lparr>r_exit = NonZeroExit, r_output = BadFile, save_result = SaveOk,
         remove_result = RemoveOk\<rparr>"
  have tb: "fst (try_body ?ok (snd (subprocess_run ?ok sample_state))) = Inr ()"
    using sample_batch_accepted
    by (simp add: try_body_Inr_iff subprocess_run_simps transform_sample_batch)
  have tr: "trace (snd (main_iteration ?ok sample_state))
       = [RunRscript, SaveHistory, RemoveCsv, Sleep 60]"
    using sample_batch_accepted
    by (simp add: main_iteration_zero try_body_def subprocess_run_simps read_and_process_def
        transform_sample_batch save_atomic_def os_remove_def time_sleep_def Let_def
        sample_state_simps WAIT_TIME_def)
  have rb: "isl (fst (try_body ?bad (snd (subprocess_run ?bad sample_state))))"
    by (simp add: try_body_def subprocess_run_simps read_and_process_def)
  show ?thesis
    using staging_file_removal[of ?ok sample_state] staging_file_removal[of ?bad sample_state]
      staging_file_removal[of ?failed sample_state] tb tr rb
    by simp
qed

text \<open>
  Claim C5, as stated, fails. With a well-formed batch and an \<^verbatim>\<open>os.replace\<close> that
  raises inside \<open>save_atomic\<close>, the exception is raised within the \<^verbatim>\<open>try\<close> of
  line 80: the iteration ends with \<open>Continue\<close>, not with a termination.
\<close>

theorem persist_failure_counterexample:
  "fst (read_and_process
      \<lparr>r_exit = ExitZero, r_output = BatchCsv required_r_cols sample_batch,
       save_result = ReplaceFails, remove_result = RemoveOk\<rparr>
      (snd (subprocess_run
        \<lparr>r_exit = ExitZero, r_output = BatchCsv required_r_cols sample_batch,
         save_result = ReplaceFails, remove_result = RemoveOk\<rparr> sample_state))) = Inl OSError
   \<and> main_iteration
        \<lparr>r_exit = ExitZero, r_output = BatchCsv required_r_cols sample_batch,
         save_result = ReplaceFails, remove_result = RemoveOk\<rparr> sample_state
      = (Continue,
         \<lparr>master_df = \<lparr>columns = final_cols, rows = [sample_wide_row]\<rparr>,
          automation_file = Absent,
          temp_file = Csv final_cols [sample_wide_row],
          expected_csv = BatchCsv required_r_cols sample_batch,
          trace = [RunRscript, Sleep 60]\<rparr>)"
  using sample_batch_accepted
  by (simp add: main_iteration_zero try_body_def subprocess_run_simps read_and_process_def
      transform_sample_batch merge_into_empty_history save_atomic_def os_remove_def
      time_sleep_def Let_def sample_state_def WAIT_TIME_def to_csv_def)

lemma main_iteration_continues:
  "r_exit w \<noteq> LaunchFailure \<Longrightarrow> fst (main_iteration w s) = Continue"
  by (cases "r_exit w") (simp_all add: main_iteration_nonzero main_iteration_zero)

lemma automation_file_read_and_process:
  "automation_file (snd (read_and_process w s)) = automation_file s
   \<or> (save_result w = SaveOk
      \<and> automation_file (snd (read_and_process w s)) = to_csv (master_df (snd (read_and_process w s))))"
  by (simp add: read_and_process_def save_atomic_def Let_def
      split: sum.splits prod.splits save_outcome.splits)

lemma try_body_frame:
  "automation_file (snd (try_body w s)) = automation_file (snd (read_and_process w s))
   \<and> master_df (snd (try_body w s)) = master_df (snd (read_and_process w s))
   \<and> temp_file (snd (try_body w s)) = temp_file (snd (read_and_process w s))"
  by (cases "read_and_process w s"; cases "fst (read_and_process w s)"; cases "remove_result w")
     (auto simp: try_body_def os_remove_def)

lemma automation_file_main_iteration:
  "automation_file (snd (main_iteration w s)) = automation_file s
   \<or> (save_result w = SaveOk
      \<and> automation_file (snd (main_iteration w s)) = to_csv (master_df (snd (main_iteration w s))))"
proof (cases "r_exit w")
  case ExitZero
  then show ?thesis
    using automation_file_read_and_process[of w "snd (subprocess_run w s)"]
    by (auto simp: main_iteration_zero time_sleep_def try_body_frame subprocess_run_simps)
next
  case NonZeroExit
  then show ?thesis by (simp add: main_iteration_nonzero)
next
  case LaunchFailure
  then show ?thesis by (simp add: main_iteration_launch)
qed

text \<open>
  Claim C5, amended. An exception raised during the atomic persist is inside the
  iteration's \<^verbatim>\<open>try\<close> block: it is caught, the iteration sleeps and the loop
  continues; the history file is as before, the batch file is not removed, and the master
  table in memory holds the merged and capped rows. No iteration whose R script could be
  started terminates the loop. After any iteration the history file is either unchanged
  or the completely written new master table.
\<close>

theorem persist_failure_contained:
  "(r_exit w \<noteq> LaunchFailure \<longrightarrow> fst (main_iteration w s) = Continue)
   \<and> (automation_file (snd (main_iteration w s)) = automation_file s
      \<or> (save_result w = SaveOk
         \<and> automation_file (snd (main_iteration w s)) = to_csv (master_df (snd (main_iteration w s)))))
   \<and> (r_exit w = ExitZero \<and> r_output w = BatchCsv cols rs \<and> \<not> df_empty cols rs
       \<and> list_all (\<lambda>col. col \<in> set cols) required_r_cols \<and> transform rs = Inr pb
       \<and> save_result w \<noteq> SaveOk \<longrightarrow>
         fst (read_and_process w (snd (subprocess_run w s))) = Inl OSError
       \<and> fst (main_iteration w s) = Continue
       \<and> automation_file (snd (main_iteration w s)) = automation_file s
       \<and> expected_csv (snd (main_iteration w s)) = r_output w
       \<and> master_df (snd (main_iteration w s)) = cap_history (merge_history (master_df s) pb)
       \<and> trace (snd (main_iteration w s)) = trace s @ [RunRscript, Sleep WAIT_TIME])"
proof -
  have "fst (read_and_process w (snd (subprocess_run w s))) = Inl OSError
       \<and> fst (main_iteration w s) = Continue
       \<and> automation_file (snd (main_iteration w s)) = automation_file s
       \<and> expected_csv (snd (main_iteration w s)) = r_output w
       \<and> master_df (snd (main_iteration w s)) = cap_history (merge_history (master_df s) pb)
       \<and> trace (snd (main_iteration w s)) = trace s @ [RunRscript, Sleep WAIT_TIME]"
    if a: "r_exit w = ExitZero" "r_output w = BatchCsv cols rs" "\<not> df_empty cols rs"
       "list_all (\<lambda>col. col \<in> set cols) required_r_cols" "transform rs = Inr pb"
       "save_result w \<noteq> SaveOk"
    using a
    by (cases "save_result w")
       (simp_all add: main_iteration_zero try_body_def subprocess_run_simps read_and_process_def
          save_atomic_def time_sleep_def Let_def)
  then show ?thesis
    using main_iteration_continues[of w s] automation_file_main_iteration[of w s] by blast
qed

theorem persist_failure_contained_witness:
  "\<not> df_empty required_r_cols sample_batch
   \<and> list_all (\<lambda>col. col \<in> set required_r_cols) required_r_cols
   \<and> transform sample_batch = Inr \<lparr>columns = final_cols, rows = [sample_wide_row]\<rparr>
   \<and> fst (main_iteration
        \<lparr>r_exit = ExitZero, r_output = BatchCsv required_r_cols sample_batch,
         save_result = ToCsvFails Unreadable, remove_result = RemoveOk\<rparr> sample_state) = Continue
   \<and> automation_file (snd (main_iteration
        \<lparr>r_exit = ExitZero, r_output = BatchCsv required_r_cols sample_batch,
         save_result = ToCsvFails Unreadable, remove_result = RemoveOk\<rparr> sample_state)) = Absent
   \<and> master_df (snd (main_iteration
        \<lparr>r_exit = ExitZero, r_output = BatchCsv required_r_cols sample_batch,
         save_result = ToCsvFails Unreadable, remove_result = RemoveOk\<rparr> sample_state))
       = \<lparr>columns = final_cols, rows = [sample_wide_row]\<rparr>
   \<and> trace (snd (main_iteration
        \<lparr>r_exit = ExitZero, r_output = BatchCsv required_r_cols sample_batch,
         save_result = ToCsvFails Unreadable, remove_result = RemoveOk\<rparr> sample_state))
       = [RunRscript, Sleep 60]"
  using persist_failure_contained[of
      "\<lparr>r_exit = ExitZero, r_output = BatchCsv required_r_cols sample_batch,
        save_result = ToCsvFails Unreadable, remove_result = RemoveOk\<rparr>"
      sample_state required_r_cols sample_batch "\<lparr>columns = final_cols, rows = [sample_wide_row]\<rparr>"]
    sample_batch_accepted transform_sample_batch merge_into_empty_history
  by (simp add: sample_state_simps WAIT_TIME_def)

subsection \<open>The transform\<close>



















end
